theory Spec2Isabelle
  imports Complex_Main "HOL-Library.AList"
begin

section \<open>Values exchanged with the backend\<close>

text \<open>
  Every frame and every RPC result is what Python's \<^verbatim>\<open>json.loads\<close> returns: \<^verbatim>\<open>None\<close>,
  a bool, an int, a float, a str, a list or a dict. A dict is kept as the list of its items
  in insertion order; the keys of such a list are pairwise distinct, as those of a Python
  dict are. Floats are idealised as reals.
\<close>

datatype json =
    JNull
  | JBool bool
  | JInt int
  | JFloat real
  | JStr string
  | JArr "json list"
  | JObj "(string \<times> json) list"

text \<open>
  The exceptions that the modelled code can raise or let through. \<^verbatim>\<open>RpcError\<close> is the
  dataclass of the toolbox client, with its fields \<^verbatim>\<open>code\<close>, \<^verbatim>\<open>message\<close> and \<^verbatim>\<open>details\<close>
  (\<^verbatim>\<open>None\<close> is \<open>JNull\<close>).
\<close>

datatype py_exn =
    AttributeError
  | TypeError
  | TimeoutError
  | RuntimeError json
  | RpcError string string json
  | OverflowError
  | CancelledError


text \<open>Python truthiness, as used by \<^verbatim>\<open>not x\<close> and \<^verbatim>\<open>x or y\<close>.\<close>

fun truthy :: "json \<Rightarrow> bool" where
  "truthy JNull = False"
| "truthy (JBool b) = b"
| "truthy (JInt n) = (n \<noteq> 0)"
| "truthy (JFloat r) = (r \<noteq> 0)"
| "truthy (JStr s) = (s \<noteq> [])"
| "truthy (JArr xs) = (xs \<noteq> [])"
| "truthy (JObj d) = (d \<noteq> [])"

text \<open>\<^verbatim>\<open>d.get(k)\<close> on a dict: the value, or \<^verbatim>\<open>None\<close> when the key is absent.\<close>

definition dict_get :: "(string \<times> json) list \<Rightarrow> string \<Rightarrow> json" where
  "dict_get d k = (case map_of d k of None \<Rightarrow> JNull | Some v \<Rightarrow> v)"

text \<open>\<^verbatim>\<open>k in d\<close> on a dict.\<close>

definition dict_has :: "(string \<times> json) list \<Rightarrow> string \<Rightarrow> bool" where
  "dict_has d k = (map_of d k \<noteq> None)"

text \<open>
  Iterating a value with \<^verbatim>\<open>for u in x\<close>: a list yields its elements, a dict its keys, a str
  its one-character strings; anything else raises \<^verbatim>\<open>TypeError\<close>.
\<close>

fun py_iter :: "json \<Rightarrow> py_exn + json list" where
  "py_iter (JArr xs) = Inr xs"
| "py_iter (JObj d) = Inr (map (\<lambda>kv. JStr (fst kv)) d)"
| "py_iter (JStr s) = Inr (map (\<lambda>c. JStr [c]) s)"
| "py_iter _ = Inl TypeError"

section \<open>The snapshot of all devices: \<^verbatim>\<open>poll_all_flat\<close>\<close>

type_synonym metrics = "(string \<times> json) list"
type_synonym snapshot = "(string \<times> metrics) list"

text \<open>
  The expression \<^verbatim>\<open>v.get("value") if isinstance(v, dict) and "value" in v else v\<close> of both
  dict comprehensions.
\<close>

fun unwrap :: "json \<Rightarrow> json" where
  "unwrap (JObj d) = (if dict_has d ''value'' then dict_get d ''value'' else JObj d)"
| "unwrap v = v"

text \<open>The comprehension \<^verbatim>\<open>{k: unwrap(v) for k, v in d.items()}\<close>.\<close>

definition unwrap_items :: "(string \<times> json) list \<Rightarrow> metrics" where
  "unwrap_items d = map (\<lambda>kv. (fst kv, unwrap (snd kv))) d"

text \<open>
  The body of the loop from \<^verbatim>\<open>meas = u.get("measurement") or {}\<close> to the assignment of
  \<^verbatim>\<open>flat\<close>; the argument is \<^verbatim>\<open>u.get("measurement")\<close>.
\<close>

definition flat_of :: "json \<Rightarrow> metrics" where
  "flat_of m =
     (case (if truthy m then m else JObj []) of
        JObj meas \<Rightarrow>
          (if dict_has meas ''measurements'' then
             (case dict_get meas ''measurements'' of
                JObj inner \<Rightarrow> unwrap_items inner
              | _ \<Rightarrow> unwrap_items meas)
           else unwrap_items meas)
      | _ \<Rightarrow> [])"

text \<open>
  One iteration of \<^verbatim>\<open>for u in r.get("updates", [])\<close>. \<^verbatim>\<open>u.get\<close> raises \<^verbatim>\<open>AttributeError\<close>
  when \<^verbatim>\<open>u\<close> is not a dict. \<^verbatim>\<open>out[did] = flat\<close> keeps the position of a key that is already
  there and appends a new one.
\<close>

fun poll_update :: "snapshot \<Rightarrow> json \<Rightarrow> py_exn + snapshot" where
  "poll_update out (JObj u) =
     (let did = dict_get u ''id'';
          flat = flat_of (dict_get u ''measurement'')
      in case did of
           JStr s \<Rightarrow> Inr (AList.update s flat out)
         | _ \<Rightarrow> Inr out)"
| "poll_update out _ = Inl AttributeError"

fun poll_loop :: "snapshot \<Rightarrow> json list \<Rightarrow> py_exn + snapshot" where
  "poll_loop out [] = Inr out"
| "poll_loop out (u # us) =
     (case poll_update out u of
        Inl e \<Rightarrow> Inl e
      | Inr out' \<Rightarrow> poll_loop out' us)"

text \<open>
  \<^verbatim>\<open>poll_all_flat\<close>, as a function of the value \<^verbatim>\<open>r\<close> that \<^verbatim>\<open>rpc("devices.poll", {})\<close>
  returned. \<^verbatim>\<open>r.get("updates", [])\<close> is the empty list only when the key is absent.
\<close>

fun poll_all_flat :: "json \<Rightarrow> py_exn + snapshot" where
  "poll_all_flat (JObj r) =
     (case py_iter (if dict_has r ''updates'' then dict_get r ''updates'' else JArr []) of
        Inl e \<Rightarrow> Inl e
      | Inr us \<Rightarrow> poll_loop [] us)"
| "poll_all_flat _ = Inl AttributeError"

section \<open>The toolbox client: pending table, reader loop and \<^verbatim>\<open>call\<close>\<close>

text \<open>
  An \<^verbatim>\<open>asyncio.Future\<close> is pending, holds a result, or is cancelled; \<^verbatim>\<open>done()\<close> is true in
  the last two states (\<open>fut_done\<close>).
\<close>

datatype fut = Unresolved | Resolved json | Cancelled

fun fut_done :: "fut \<Rightarrow> bool" where
  "fut_done Unresolved = False"
| "fut_done (Resolved m) = True"
| "fut_done Cancelled = True"

text \<open>
  The client and the calls in flight on it. Future objects live in a store indexed by a
  handle; the call with handle \<open>h\<close> is the \<open>h\<close>-th call begun on the client, \<open>rids ! h\<close> is
  the id it generated, \<open>futures h\<close> the future it created and \<open>outcomes h\<close> what it
  returned or raised once it has ended. \<open>pending\<close> is \<^verbatim>\<open>self._pending\<close>, \<open>sent\<close> the frames
  handed to \<^verbatim>\<open>self._ws.send\<close> (before \<^verbatim>\<open>json.dumps\<close>), and \<open>reader\<close> the exception that ended
  the reader task, if one did.
\<close>

record client =
  pending :: "string \<rightharpoonup> nat"
  futures :: "nat \<Rightarrow> fut"
  rids :: "string list"
  outcomes :: "nat \<rightharpoonup> py_exn + json"
  sent :: "json list"
  reader :: "py_exn option"

definition new_client :: client where
  "new_client =
     \<lparr>pending = Map.empty, futures = (\<lambda>h. Unresolved), rids = [], outcomes = Map.empty,
      sent = [], reader = None\<rparr>"

text \<open>
  One iteration of \<^verbatim>\<open>async for raw in self._ws\<close> in \<^verbatim>\<open>_reader\<close>. The frame is given by what
  \<^verbatim>\<open>json.loads(raw)\<close> makes of it: \<open>None\<close> when it raises. \<open>Inl\<close> is an exception that
  leaves the loop: \<^verbatim>\<open>msg.get\<close> on a value that is not a dict, or \<^verbatim>\<open>self._pending.pop(rid)\<close>
  with an unhashable \<^verbatim>\<open>rid\<close> (a list or a dict). A key that is a number or a bool is hashable
  and equal to no key of the table, all of which are strings.
\<close>

definition reader_body :: "json option \<Rightarrow> client \<Rightarrow> py_exn + client" where
  "reader_body raw s =
     (case raw of
        None \<Rightarrow> Inr s
      | Some (JObj msg) \<Rightarrow>
          (if dict_get msg ''type'' \<noteq> JStr ''rpc_result'' then Inr s
           else
             let rid = dict_get msg ''id'' in
             if \<not> truthy rid then Inr s
             else
               (case rid of
                  JStr r \<Rightarrow>
                    (case pending s r of
                       None \<Rightarrow> Inr s
                     | Some h \<Rightarrow>
                         (let s' = s\<lparr>pending := (pending s)(r := None)\<rparr> in
                          if fut_done (futures s h) then Inr s'
                          else Inr (s'\<lparr>futures := (futures s)(h := Resolved (JObj msg))\<rparr>)))
                | JArr xs \<Rightarrow> Inl TypeError
                | JObj d \<Rightarrow> Inl TypeError
                | _ \<Rightarrow> Inr s))
      | Some _ \<Rightarrow> Inl AttributeError)"

text \<open>
  The rest of \<^verbatim>\<open>call\<close> after \<^verbatim>\<open>wait_for\<close> has returned \<^verbatim>\<open>resp\<close>. \<^verbatim>\<open>str(x)\<close> is \<^verbatim>\<open>x\<close> itself for
  a str and \<^verbatim>\<open>repr(x)\<close> otherwise; \<^verbatim>\<open>repr\<close> is Python's and is a parameter here.
\<close>

definition py_str :: "(json \<Rightarrow> string) \<Rightarrow> json \<Rightarrow> string" where
  "py_str repr v = (case v of JStr s \<Rightarrow> s | _ \<Rightarrow> repr v)"

definition str_or :: "(json \<Rightarrow> string) \<Rightarrow> json \<Rightarrow> string \<Rightarrow> string" where
  "str_or repr v dflt = (if truthy v then py_str repr v else dflt)"

definition call_result :: "(json \<Rightarrow> string) \<Rightarrow> json \<Rightarrow> py_exn + json" where
  "call_result repr resp =
     (case resp of
        JObj d \<Rightarrow>
          (if truthy (dict_get d ''ok'') then Inr (dict_get d ''result'')
           else
             (case (if truthy (dict_get d ''error'') then dict_get d ''error'' else JObj []) of
                JObj err \<Rightarrow>
                  Inl (RpcError (str_or repr (dict_get err ''code'') ''error'')
                         (str_or repr (dict_get err ''message'') ''RPC failed'')
                         (dict_get err ''details''))
              | _ \<Rightarrow> Inl AttributeError))
      | _ \<Rightarrow>
          (if truthy resp then Inl AttributeError
           else Inl (RpcError ''error'' ''RPC failed'' JNull)))"

text \<open>
  What happens on a client, one atomic step at a time (the code between two \<^verbatim>\<open>await\<close>s runs
  without interruption):
  \<^item> \<open>Begin rid method params\<close>: a call draws \<open>rid\<close> from \<^verbatim>\<open>uuid.uuid4().hex\<close>, creates its
    future, stores it under \<open>rid\<close> and sends the request;
  \<^item> \<open>Inbound raw\<close>: the reader loop, if it is still running, takes the next frame;
  \<^item> \<open>Expire h\<close>: the timeout of call \<open>h\<close> elapses; \<^verbatim>\<open>asyncio.wait_for\<close> cancels the future
    unless it is done;
  \<^item> \<open>End h\<close>: call \<open>h\<close> resumes once its future is done, runs its \<^verbatim>\<open>finally\<close> clause and
    returns or raises.
\<close>

datatype event =
    Begin string string json
  | Inbound "json option"
  | Expire nat
  | End nat

definition request :: "string \<Rightarrow> string \<Rightarrow> json \<Rightarrow> json" where
  "request rid method params =
     JObj [(''type'', JStr ''rpc''), (''id'', JStr rid), (''method'', JStr method),
           (''params'', if truthy params then params else JObj [])]"

text \<open>
  \<^verbatim>\<open>call\<close> up to its \<^verbatim>\<open>await self._ws.send\<close>, with the connection taken as established and
  the send as succeeding.
\<close>

definition call_begin :: "string \<Rightarrow> string \<Rightarrow> json \<Rightarrow> client \<Rightarrow> client" where
  "call_begin rid method params s =
     s\<lparr>pending := (pending s)(rid \<mapsto> length (rids s)),
       futures := (futures s)(length (rids s) := Unresolved),
       rids := rids s @ [rid],
       sent := sent s @ [request rid method params]\<rparr>"

text \<open>The reader task: it takes frames as long as no exception has ended it.\<close>

definition reader_step :: "json option \<Rightarrow> client \<Rightarrow> client" where
  "reader_step raw s =
     (case reader s of
        Some e \<Rightarrow> s
      | None \<Rightarrow>
          (case reader_body raw s of
             Inl e \<Rightarrow> s\<lparr>reader := Some e\<rparr>
           | Inr s' \<Rightarrow> s'))"

text \<open>
  The timeout inside \<^verbatim>\<open>asyncio.wait_for(fut, timeout=timeout_s)\<close>, for a call that has begun
  and not ended: a future that is not done is cancelled, one that is done is left alone.
\<close>

definition call_expire :: "nat \<Rightarrow> client \<Rightarrow> client" where
  "call_expire h s =
     (if h < length (rids s) \<and> outcomes s h = None \<and> \<not> fut_done (futures s h)
      then s\<lparr>futures := (futures s)(h := Cancelled)\<rparr>
      else s)"

text \<open>
  \<^verbatim>\<open>call\<close> from the return of \<^verbatim>\<open>wait_for\<close> on: with the result of the future, or with
  \<^verbatim>\<open>TimeoutError\<close> when the future was cancelled; then \<^verbatim>\<open>self._pending.pop(rid, None)\<close> in
  the \<^verbatim>\<open>finally\<close> clause, and the return value or the exception. A call whose future is not
  done stays suspended.
\<close>

definition call_end :: "(json \<Rightarrow> string) \<Rightarrow> nat \<Rightarrow> client \<Rightarrow> client" where
  "call_end repr h s =
     (if h < length (rids s) \<and> outcomes s h = None then
        (case futures s h of
           Unresolved \<Rightarrow> s
         | Resolved resp \<Rightarrow>
             s\<lparr>pending := (pending s)(rids s ! h := None),
               outcomes := (outcomes s)(h \<mapsto> call_result repr resp)\<rparr>
         | Cancelled \<Rightarrow>
             s\<lparr>pending := (pending s)(rids s ! h := None),
               outcomes := (outcomes s)(h \<mapsto> Inl TimeoutError)\<rparr>)
      else s)"

fun step :: "(json \<Rightarrow> string) \<Rightarrow> event \<Rightarrow> client \<Rightarrow> client" where
  "step repr (Begin rid method params) s = call_begin rid method params s"
| "step repr (Inbound raw) s = reader_step raw s"
| "step repr (Expire h) s = call_expire h s"
| "step repr (End h) s = call_end repr h s"

fun run :: "(json \<Rightarrow> string) \<Rightarrow> event list \<Rightarrow> client \<Rightarrow> client" where
  "run repr [] s = s"
| "run repr (e # es) s = run repr es (step repr e s)"

section \<open>Rendering of \<^verbatim>\<open>RpcError\<close> and the command line\<close>

text \<open>\<^verbatim>\<open>RpcError.__str__\<close>.\<close>

definition RpcError_str :: "(json \<Rightarrow> string) \<Rightarrow> string \<Rightarrow> string \<Rightarrow> json \<Rightarrow> string" where
  "RpcError_str repr code message details =
     (let base = code @ '': '' @ message
      in if details \<noteq> JNull then base @ '' ('' @ py_str repr details @ '')'' else base)"

definition cli_commands :: "string list" where
  "cli_commands =
     [''devices.list'', ''devices.poll'', ''device.action'', ''qec.decode'',
      ''record.start'', ''record.stop'', ''record.load'']"

text \<open>
  \<^verbatim>\<open>_run_cli\<close>, as a function of \<^verbatim>\<open>args.cmd\<close> and of what the operation of that command
  (\<^verbatim>\<open>client.call\<close>, or \<^verbatim>\<open>load_recording_jsonl\<close> for \<^verbatim>\<open>record.load\<close>) returned or raised.
  \<open>dumps\<close> is \<^verbatim>\<open>json.dumps(out, indent=2)\<close>. The result is the line printed and the value
  returned, which \<^verbatim>\<open>main\<close> turns into the exit status; \<open>Inl\<close> is an exception that only the
  \<^verbatim>\<open>finally\<close> clause sees and that leaves \<^verbatim>\<open>_run_cli\<close>.
\<close>

definition run_cli ::
  "(json \<Rightarrow> string) \<Rightarrow> (json \<Rightarrow> string) \<Rightarrow> string \<Rightarrow> py_exn + json \<Rightarrow> py_exn + string \<times> int"
where
  "run_cli repr dumps cmd res =
     (case (if cmd \<in> set cli_commands then res
            else Inl (RpcError ''bad_request'' (''Unknown command: '' @ cmd) JNull)) of
        Inr out \<Rightarrow> Inr (dumps out, 0)
      | Inl (RpcError code message details) \<Rightarrow>
          Inr (''ERROR: '' @ RpcError_str repr code message details, 2)
      | Inl e \<Rightarrow> Inl e)"

section \<open>Loading a recording: \<^verbatim>\<open>load_recording_jsonl\<close>\<close>

text \<open>
  A line of the file, by what the loop makes of it: empty after \<^verbatim>\<open>strip()\<close>, rejected by
  \<^verbatim>\<open>json.loads\<close>, or parsed to a value.
\<close>

datatype line = Blank | Unparseable | Parsed json

text \<open>The three local variables; \<^verbatim>\<open>None\<close> is \<open>JNull\<close>.\<close>

record recording =
  header :: json
  samples :: "json list"
  footer :: json

fun load_lines :: "recording \<Rightarrow> line list \<Rightarrow> py_exn + recording" where
  "load_lines rec [] = Inr rec"
| "load_lines rec (Blank # ls) = load_lines rec ls"
| "load_lines rec (Unparseable # ls) = load_lines rec ls"
| "load_lines rec (Parsed (JObj obj) # ls) =
     (let t = dict_get obj ''type'' in
      if t = JStr ''stonegate_recording'' \<and> header rec = JNull
        then load_lines (rec\<lparr>header := JObj obj\<rparr>) ls
      else if t = JStr ''sample''
        then load_lines (rec\<lparr>samples := samples rec @ [JObj obj]\<rparr>) ls
      else if t = JStr ''stop''
        then load_lines (rec\<lparr>footer := JObj obj\<rparr>) ls
      else load_lines rec ls)"
| "load_lines rec (Parsed v # ls) = Inl AttributeError"

definition load_recording_jsonl :: "line list \<Rightarrow> py_exn + recording" where
  "load_recording_jsonl ls = load_lines \<lparr>header = JNull, samples = [], footer = JNull\<rparr> ls"

section \<open>The safe state: \<^verbatim>\<open>apply_safe_state\<close>\<close>

text \<open>
  The backend is reached through \<^verbatim>\<open>rpc\<close> only. The log holds the calls of \<^verbatim>\<open>rpc\<close> made so
  far, oldest first, and the backend (with the transport and the scheduler) is any function
  from the log and the next request to what \<^verbatim>\<open>rpc\<close> returns or raises.
\<close>

type_synonym rpc_log = "(string \<times> json) list"
type_synonym backend = "rpc_log \<Rightarrow> string \<Rightarrow> json \<Rightarrow> py_exn + json"

definition rpc :: "backend \<Rightarrow> string \<Rightarrow> json \<Rightarrow> rpc_log \<Rightarrow> (py_exn + json) \<times> rpc_log" where
  "rpc be method params lg =
     (let ps = (if truthy params then params else JObj [])
      in (be lg method ps, lg @ [(method, ps)]))"

definition record_stop :: "backend \<Rightarrow> string \<Rightarrow> rpc_log \<Rightarrow> (py_exn + json) \<times> rpc_log" where
  "record_stop be recording_id lg =
     (if recording_id = [] then (Inr JNull, lg)
      else rpc be ''record.stop'' (JObj [(''recording_id'', JStr recording_id)]) lg)"






section \<open>Floating-point arithmetic\<close>

text \<open>
  The detector and the estimator compute in Python floats. They are written here over any
  type \<open>'f\<close> with the operations the code applies to floats, so that what is proved of
  them holds of IEEE doubles, with their rounding, infinities and NaN: \<^verbatim>\<open>-\<close>, \<^verbatim>\<open>*\<close>, \<^verbatim>\<open>/\<close>,
  \<^verbatim>\<open>** 2\<close>, unary minus, \<^verbatim>\<open>abs\<close>, \<^verbatim>\<open>math.log\<close>, \<^verbatim>\<open>sum\<close>, the conversion of \<^verbatim>\<open>len(xs)\<close>, the
  tests \<^verbatim>\<open>== 0\<close>, \<^verbatim>\<open>> 0\<close>, \<^verbatim>\<open>< 0\<close> and \<^verbatim>\<open>math.isfinite\<close>, and the comparisons \<^verbatim>\<open>>\<close>, \<^verbatim>\<open><\<close>
  and \<^verbatim>\<open><=\<close> of two floats. Of these only \<^verbatim>\<open>** 2\<close> raises on the floats that reach it:
  \<^verbatim>\<open>OverflowError\<close> when the square is out of range (\<open>f_sq_overflow\<close>); \<^verbatim>\<open>/\<close> is reached only
  with a divisor that is a length of at least 3 or has failed the test \<^verbatim>\<open>== 0\<close>, and
  \<^verbatim>\<open>math.log\<close> only with the absolute value of a number that has failed it.
\<close>

record 'f float_ops =
  f_sub :: "'f \<Rightarrow> 'f \<Rightarrow> 'f"
  f_mul :: "'f \<Rightarrow> 'f \<Rightarrow> 'f"
  f_div :: "'f \<Rightarrow> 'f \<Rightarrow> 'f"
  f_sq :: "'f \<Rightarrow> 'f"
  f_sq_overflow :: "'f \<Rightarrow> bool"
  f_neg :: "'f \<Rightarrow> 'f"
  f_abs :: "'f \<Rightarrow> 'f"
  f_log :: "'f \<Rightarrow> 'f"
  f_sum :: "'f list \<Rightarrow> 'f"
  f_len :: "nat \<Rightarrow> 'f"
  f_eq0 :: "'f \<Rightarrow> bool"
  f_gt0 :: "'f \<Rightarrow> bool"
  f_lt0 :: "'f \<Rightarrow> bool"
  f_isfinite :: "'f \<Rightarrow> bool"
  f_gt :: "'f \<Rightarrow> 'f \<Rightarrow> bool"
  f_lt :: "'f \<Rightarrow> 'f \<Rightarrow> bool"
  f_le :: "'f \<Rightarrow> 'f \<Rightarrow> bool"

text \<open>
  A small arithmetic for evaluating the functions on concrete inputs: the reals with a NaN,
  exact operations that propagate the NaN, comparisons that are false on it, and the
  overflow of \<^verbatim>\<open>** 2\<close> at the range of doubles. It agrees with the arithmetic of doubles
  wherever the results of the operations are representable exactly, and is used on such
  inputs only.
\<close>

datatype pyfloat = Finite real | Nan

fun lift2 :: "(real \<Rightarrow> real \<Rightarrow> real) \<Rightarrow> pyfloat \<Rightarrow> pyfloat \<Rightarrow> pyfloat" where
  "lift2 g (Finite x) (Finite y) = Finite (g x y)"
| "lift2 g x y = Nan"

fun lift1 :: "(real \<Rightarrow> real) \<Rightarrow> pyfloat \<Rightarrow> pyfloat" where
  "lift1 g (Finite x) = Finite (g x)"
| "lift1 g Nan = Nan"

fun test2 :: "(real \<Rightarrow> real \<Rightarrow> bool) \<Rightarrow> pyfloat \<Rightarrow> pyfloat \<Rightarrow> bool" where
  "test2 p (Finite x) (Finite y) = p x y"
| "test2 p x y = False"

fun test1 :: "(real \<Rightarrow> bool) \<Rightarrow> pyfloat \<Rightarrow> bool" where
  "test1 p (Finite x) = p x"
| "test1 p Nan = False"

definition exact_ops :: "pyfloat float_ops" where
  "exact_ops =
     \<lparr>f_sub = lift2 (\<lambda>x y. x - y), f_mul = lift2 (\<lambda>x y. x * y), f_div = lift2 (\<lambda>x y. x / y),
      f_sq = lift1 (\<lambda>x. x * x), f_sq_overflow = test1 (\<lambda>x. 2 ^ 1024 \<le> x * x),
      f_neg = lift1 (\<lambda>x. - x), f_abs = lift1 (\<lambda>x. \<bar>x\<bar>), f_log = lift1 ln,
      f_sum = foldl (lift2 (\<lambda>x y. x + y)) (Finite 0), f_len = (\<lambda>n. Finite (real n)),
      f_eq0 = test1 (\<lambda>x. x = 0), f_gt0 = test1 (\<lambda>x. x > 0), f_lt0 = test1 (\<lambda>x. x < 0),
      f_isfinite = test1 (\<lambda>x. True),
      f_gt = test2 (\<lambda>x y. x > y), f_lt = test2 (\<lambda>x y. x < y), f_le = test2 (\<lambda>x y. x \<le> y)\<rparr>"

section \<open>The stability detector: \<^verbatim>\<open>wait_for_stable\<close>\<close>

text \<open>
  \<^verbatim>\<open>get_latest_number\<close>, as a function of what \<^verbatim>\<open>poll_all_flat\<close> returned or raised.
  \<open>to_float\<close> is \<^verbatim>\<open>float(v)\<close> inside its \<^verbatim>\<open>try\<close>: \<open>None\<close> when it raises.
\<close>

definition get_latest_number ::
  "(json \<Rightarrow> 'f option) \<Rightarrow> py_exn + snapshot \<Rightarrow> string \<Rightarrow> string \<Rightarrow> py_exn + 'f option"
where
  "get_latest_number to_float polled device_id metric =
     (case polled of
        Inl e \<Rightarrow> Inl e
      | Inr snap \<Rightarrow>
          Inr (to_float
                 (case map_of snap device_id of
                    None \<Rightarrow> JNull
                  | Some m \<Rightarrow> dict_get m metric)))"









section \<open>The leak rate: \<^verbatim>\<open>estimate_leak_rate_per_s\<close>\<close>

text \<open>
  \<^verbatim>\<open>x ** 2\<close>, and the generator \<^verbatim>\<open>(x - xbar) ** 2 for x in xs\<close> as \<^verbatim>\<open>sum\<close> consumes it: the
  first square that is out of range raises \<^verbatim>\<open>OverflowError\<close>.
\<close>

definition py_pow2 :: "'f float_ops \<Rightarrow> 'f \<Rightarrow> py_exn + 'f" where
  "py_pow2 F x = (if f_sq_overflow F x then Inl OverflowError else Inr (f_sq F x))"

fun squares :: "'f float_ops \<Rightarrow> 'f \<Rightarrow> 'f list \<Rightarrow> py_exn + 'f list" where
  "squares F xbar [] = Inr []"
| "squares F xbar (x # xs) =
     (case py_pow2 F (f_sub F x xbar) of
        Inl e \<Rightarrow> Inl e
      | Inr s \<Rightarrow> (case squares F xbar xs of Inl e \<Rightarrow> Inl e | Inr ss \<Rightarrow> Inr (s # ss)))"

text \<open>The loop \<^verbatim>\<open>for t, p in samples\<close>, which fills \<^verbatim>\<open>xs\<close> and \<^verbatim>\<open>ys\<close>.\<close>

fun collect_points ::
  "'f float_ops \<Rightarrow> 'f \<Rightarrow> 'f \<Rightarrow> 'f \<Rightarrow> 'f list \<times> 'f list \<Rightarrow> ('f \<times> 'f) list \<Rightarrow> 'f list \<times> 'f list"
where
  "collect_points F t0 dp0 p_atm_kpa acc [] = acc"
| "collect_points F t0 dp0 p_atm_kpa acc ((t, p) # rest) =
     (let dp = f_sub F p p_atm_kpa in
      if f_eq0 F dp \<or> (f_gt0 F dp \<noteq> f_gt0 F dp0)
        then collect_points F t0 dp0 p_atm_kpa acc rest
      else collect_points F t0 dp0 p_atm_kpa
             (fst acc @ [f_sub F t t0], snd acc @ [f_log F (f_abs F dp)]) rest)"

text \<open>
  The argument \<^verbatim>\<open>samples\<close> is \<open>raw_samples\<close> here. \<open>Inl\<close> is an exception that leaves the
  function, \<open>Inr None\<close> the return of \<^verbatim>\<open>None\<close>.
\<close>

definition estimate_leak_rate_per_s ::
  "'f float_ops \<Rightarrow> ('f \<times> 'f) list \<Rightarrow> 'f \<Rightarrow> py_exn + 'f option"
where
  "estimate_leak_rate_per_s F raw_samples p_atm_kpa =
     (if length raw_samples < 3 then Inr None
      else
        let t0 = fst (hd raw_samples);
            dp0 = f_sub F (snd (hd raw_samples)) p_atm_kpa
        in if f_eq0 F dp0 then Inr None
           else
             (case collect_points F t0 dp0 p_atm_kpa ([], []) raw_samples of
                (xs, ys) \<Rightarrow>
                  if length xs < 3 then Inr None
                  else
                    let xbar = f_div F (f_sum F xs) (f_len F (length xs));
                        ybar = f_div F (f_sum F ys) (f_len F (length ys));
                        num = f_sum F (map (\<lambda>xy. f_mul F (f_sub F (fst xy) xbar)
                                                          (f_sub F (snd xy) ybar)) (zip xs ys))
                    in (case squares F xbar xs of
                          Inl e \<Rightarrow> Inl e
                        | Inr sq \<Rightarrow>
                            let den = f_sum F sq in
                            if f_eq0 F den then Inr None
                            else
                              let b = f_div F num den;
                                  k = f_neg F b
                              in if \<not> f_isfinite F k \<or> f_lt0 F k then Inr None
                                 else Inr (Some k))))"

section \<open>The specification's wording of the operations\<close>

text \<open>
  The normalisation rule of \<^verbatim>\<open>poll_all_flat\<close> as the specification words it: a value that is
  an object with a \<^verbatim>\<open>value\<close> entry stands for that entry; the entries of the nested object
  under \<^verbatim>\<open>measurements\<close> supply the flat mapping when there is such an object, and the
  measurement's own entries otherwise.
\<close>

definition spec_unwrap :: "json \<Rightarrow> json" where
  "spec_unwrap v =
     (case v of
        JObj w \<Rightarrow> (case map_of w ''value'' of Some x \<Rightarrow> x | None \<Rightarrow> v)
      | _ \<Rightarrow> v)"

definition spec_flat :: "(string \<times> json) list \<Rightarrow> metrics" where
  "spec_flat meas =
     (case map_of meas ''measurements'' of
        Some (JObj inner) \<Rightarrow> map (\<lambda>(k, v). (k, spec_unwrap v)) inner
      | _ \<Rightarrow> map (\<lambda>(k, v). (k, spec_unwrap v)) meas)"

text \<open>An update of the shape the backend documents, and the two updates of the examples.\<close>

definition device_update :: "string \<Rightarrow> json \<Rightarrow> json" where
  "device_update did m = JObj [(''id'', JStr did), (''measurement'', m)]"

definition update_d1 :: json where
  "update_d1 =
     device_update ''d1'' (JObj [(''measurements'', JObj [(''m'', JObj [(''value'', JInt 3)])])])"

definition update_d2 :: json where
  "update_d2 = device_update ''d2'' (JObj [(''m'', JInt 5)])"







text \<open>
  What holds of a client after the events \<open>evs\<close>, for the proofs about the correlator: an
  entry of the pending table leads to a call that generated its key; a future holds only a
  frame that the reader took, of type \<^verbatim>\<open>rpc_result\<close> and with the id of the future's call; only
  calls that have begun have ended; and a call that returned a value returned what
  \<^verbatim>\<open>call\<close> makes of the frame in its future.
\<close>

definition client_inv :: "(json \<Rightarrow> string) \<Rightarrow> event list \<Rightarrow> client \<Rightarrow> bool" where
  "client_inv repr evs s \<longleftrightarrow>
     (\<forall>r h. pending s r = Some h \<longrightarrow> h < length (rids s) \<and> rids s ! h = r)
     \<and> (\<forall>h m. futures s h = Resolved m \<longrightarrow>
           h < length (rids s) \<and> Inbound (Some m) \<in> set evs \<and>
           (\<exists>d. m = JObj d \<and> dict_get d ''type'' = JStr ''rpc_result'' \<and>
                dict_get d ''id'' = JStr (rids s ! h)))
     \<and> (\<forall>h v. outcomes s h = Some v \<longrightarrow> h < length (rids s))
     \<and> (\<forall>h v. outcomes s h = Some (Inr v) \<longrightarrow>
           (\<exists>m. futures s h = Resolved m \<and> call_result repr m = Inr v))"

text \<open>
  A success frame, and a trace in which two calls of the same method are answered in the
  opposite order.
\<close>

definition ok_frame :: "string \<Rightarrow> json \<Rightarrow> json" where
  "ok_frame rid result =
     JObj [(''type'', JStr ''rpc_result''), (''id'', JStr rid), (''ok'', JBool True),
           (''result'', result)]"

definition crossed_trace :: "event list" where
  "crossed_trace =
     [Begin ''a1'' ''devices.poll'' JNull, Begin ''b2'' ''devices.poll'' JNull,
      Inbound (Some (ok_frame ''b2'' (JInt 2))), Inbound (Some (ok_frame ''a1'' (JInt 1))),
      End 0, End 1]"







text \<open>
  The leak-rate estimator as the specification words it: the pressure difference of the
  first sample, the usable samples (difference not zero and of the sign of the first), the
  points \<open>x = t - t0\<close> and \<open>y = ln |dp|\<close>, the least-squares slope by centred sums, \<open>k\<close> as
  its negation, and the conditions under which there is no estimate.
\<close>

definition spec_sign :: "'f float_ops \<Rightarrow> 'f \<Rightarrow> int" where
  "spec_sign F x = (if f_gt0 F x then 1 else if f_lt0 F x then - 1 else 0)"

definition spec_dp0 :: "'f float_ops \<Rightarrow> ('f \<times> 'f) list \<Rightarrow> 'f \<Rightarrow> 'f" where
  "spec_dp0 F raw_samples p_atm = f_sub F (snd (hd raw_samples)) p_atm"

definition spec_usable :: "'f float_ops \<Rightarrow> ('f \<times> 'f) list \<Rightarrow> 'f \<Rightarrow> ('f \<times> 'f) list" where
  "spec_usable F raw_samples p_atm =
     filter (\<lambda>s. \<not> (f_eq0 F (f_sub F (snd s) p_atm) \<or>
                     spec_sign F (f_sub F (snd s) p_atm) \<noteq> spec_sign F (spec_dp0 F raw_samples p_atm)))
       raw_samples"

definition spec_xs :: "'f float_ops \<Rightarrow> ('f \<times> 'f) list \<Rightarrow> 'f \<Rightarrow> 'f list" where
  "spec_xs F raw_samples p_atm =
     map (\<lambda>s. f_sub F (fst s) (fst (hd raw_samples))) (spec_usable F raw_samples p_atm)"

definition spec_ys :: "'f float_ops \<Rightarrow> ('f \<times> 'f) list \<Rightarrow> 'f \<Rightarrow> 'f list" where
  "spec_ys F raw_samples p_atm =
     map (\<lambda>s. f_log F (f_abs F (f_sub F (snd s) p_atm))) (spec_usable F raw_samples p_atm)"

definition spec_mean :: "'f float_ops \<Rightarrow> 'f list \<Rightarrow> 'f" where
  "spec_mean F zs = f_div F (f_sum F zs) (f_len F (length zs))"

definition spec_den :: "'f float_ops \<Rightarrow> 'f list \<Rightarrow> 'f" where
  "spec_den F xs = f_sum F (map (\<lambda>x. f_sq F (f_sub F x (spec_mean F xs))) xs)"

definition spec_slope :: "'f float_ops \<Rightarrow> 'f list \<Rightarrow> 'f list \<Rightarrow> 'f" where
  "spec_slope F xs ys =
     f_div F
       (f_sum F (map (\<lambda>xy. f_mul F (f_sub F (fst xy) (spec_mean F xs))
                                    (f_sub F (snd xy) (spec_mean F ys))) (zip xs ys)))
       (spec_den F xs)"

definition spec_k :: "'f float_ops \<Rightarrow> ('f \<times> 'f) list \<Rightarrow> 'f \<Rightarrow> 'f" where
  "spec_k F raw_samples p_atm =
     f_neg F (spec_slope F (spec_xs F raw_samples p_atm) (spec_ys F raw_samples p_atm))"

definition spec_no_estimate :: "'f float_ops \<Rightarrow> ('f \<times> 'f) list \<Rightarrow> 'f \<Rightarrow> bool" where
  "spec_no_estimate F raw_samples p_atm \<longleftrightarrow>
     length raw_samples < 3
     \<or> f_eq0 F (spec_dp0 F raw_samples p_atm)
     \<or> length (spec_usable F raw_samples p_atm) < 3
     \<or> f_eq0 F (spec_den F (spec_xs F raw_samples p_atm))
     \<or> \<not> f_isfinite F (spec_k F raw_samples p_atm)
     \<or> f_lt0 F (spec_k F raw_samples p_atm)"

text \<open>A number that compares with zero, as every float but NaN does.\<close>

definition comparable :: "'f float_ops \<Rightarrow> 'f \<Rightarrow> bool" where
  "comparable F x \<longleftrightarrow> f_eq0 F x \<or> f_gt0 F x \<or> f_lt0 F x"

text \<open>
  Samples of a constant pressure, one of them a NaN, below and above the atmospheric
  pressure 2; and samples whose times are so far apart that a squared deviation is out of
  the range of doubles.
\<close>

definition nan_samples :: "(pyfloat \<times> pyfloat) list" where
  "nan_samples = [(Finite 0, Finite 1), (Finite 1, Nan), (Finite 2, Finite 1), (Finite 3, Finite 1)]"

definition nan_samples_above :: "(pyfloat \<times> pyfloat) list" where
  "nan_samples_above =
     [(Finite 0, Finite 3), (Finite 1, Nan), (Finite 2, Finite 3), (Finite 3, Finite 3)]"

definition overflow_samples :: "(pyfloat \<times> pyfloat) list" where
  "overflow_samples =
     [(Finite 0, Finite 3), (Finite (2 ^ 600), Finite 3), (Finite (2 ^ 601), Finite 3)]"

text \<open>
  A recording as the specification words it, from the objects among the lines of the file:
  the first object of type \<^verbatim>\<open>stonegate_recording\<close> is the header, the objects of type
  \<^verbatim>\<open>sample\<close> are the samples in the order of the file, and an object of type \<^verbatim>\<open>stop\<close> (the
  last one) is the footer.
\<close>

definition line_objects :: "line list \<Rightarrow> (string \<times> json) list list" where
  "line_objects ls = concat (map (\<lambda>l. case l of Parsed (JObj obj) \<Rightarrow> [obj] | _ \<Rightarrow> []) ls)"

definition of_type :: "string \<Rightarrow> (string \<times> json) list \<Rightarrow> bool" where
  "of_type t obj \<longleftrightarrow> dict_get obj ''type'' = JStr t"

definition spec_recording :: "recording \<Rightarrow> (string \<times> json) list list \<Rightarrow> recording" where
  "spec_recording rec objs =
     \<lparr>header =
        (if header rec \<noteq> JNull then header rec
         else case filter (of_type ''stonegate_recording'') objs of
                [] \<Rightarrow> JNull
              | obj # others \<Rightarrow> JObj obj),
      samples = samples rec @ map JObj (filter (of_type ''sample'') objs),
      footer =
        (case filter (of_type ''stop'') objs of
           [] \<Rightarrow> footer rec
         | obj # others \<Rightarrow> JObj (last (obj # others)))\<rparr>"

section \<open>Properties of \<^verbatim>\<open>poll_all_flat\<close>\<close>

lemma unwrap_spec: "unwrap v = spec_unwrap v"
  by (cases v) (auto simp: spec_unwrap_def dict_has_def dict_get_def split: option.splits)

lemma unwrap_items_spec: "unwrap_items d = map (\<lambda>(k, v). (k, spec_unwrap v)) d"
  by (simp add: unwrap_items_def unwrap_spec case_prod_beta)

lemma flat_of_spec: "flat_of (JObj meas) = spec_flat meas"
  by (cases meas)
    (auto simp: flat_of_def spec_flat_def unwrap_items_spec dict_has_def dict_get_def
      split: option.splits json.splits)

lemma poll_update_spec:
  "dict_get u ''id'' = JStr did \<Longrightarrow> dict_get u ''measurement'' = JObj meas \<Longrightarrow>
     poll_update out (JObj u) = Inr (AList.update did (spec_flat meas) out)"
  by (simp add: flat_of_spec)

lemma poll_loop_spec:
  "poll_loop out (map (\<lambda>(did, meas). device_update did (JObj meas)) ups) =
     Inr (foldl (\<lambda>acc (did, meas). AList.update did (spec_flat meas) acc) out ups)"
proof (induction ups arbitrary: out)
  case Nil
  show ?case by simp
next
  case (Cons p ups)
  obtain did meas where p: "p = (did, meas)" by (cases p)
  have "poll_update out (device_update did (JObj meas)) =
          Inr (AList.update did (spec_flat meas) out)"
    unfolding device_update_def by (rule poll_update_spec) (simp_all add: dict_get_def)
  then show ?case using Cons.IH by (simp add: p)
qed

text \<open>
  Claim C4. \<^verbatim>\<open>poll_all_flat\<close> normalises every measurement object by the one rule
  \<open>spec_flat\<close>: an update with a string id and an object as measurement stores
  \<open>spec_flat\<close> of that object under the id (whatever other keys the update has), so that a
  batch of such updates yields the snapshot built from \<open>spec_flat\<close> update by update; and
  the two examples of the specification evaluate to \<^verbatim>\<open>{"d1": {"m": 3}}\<close> and
  \<^verbatim>\<open>{"d2": {"m": 5}}\<close>.
\<close>

theorem poll_all_flat_normalizes:
  "(dict_get u ''id'' = JStr did \<longrightarrow> dict_get u ''measurement'' = JObj meas \<longrightarrow>
      poll_update out (JObj u) = Inr (AList.update did (spec_flat meas) out))
   \<and> poll_all_flat
         (JObj [(''updates'', JArr (map (\<lambda>(did, meas). device_update did (JObj meas)) ups))]) =
       Inr (foldl (\<lambda>acc (did, meas). AList.update did (spec_flat meas) acc) [] ups)
   \<and> poll_all_flat (JObj [(''updates'', JArr [update_d1])]) = Inr [(''d1'', [(''m'', JInt 3)])]
   \<and> poll_all_flat (JObj [(''updates'', JArr [update_d2])]) = Inr [(''d2'', [(''m'', JInt 5)])]"
proof (intro conjI impI)
  show "poll_all_flat
          (JObj [(''updates'', JArr (map (\<lambda>(did, meas). device_update did (JObj meas)) ups))]) =
        Inr (foldl (\<lambda>acc (did, meas). AList.update did (spec_flat meas) acc) [] ups)"
    by (simp add: dict_has_def dict_get_def poll_loop_spec)
  show "poll_all_flat (JObj [(''updates'', JArr [update_d1])]) = Inr [(''d1'', [(''m'', JInt 3)])]"
    by (simp add: update_d1_def device_update_def dict_has_def dict_get_def flat_of_def
        unwrap_items_def)
  show "poll_all_flat (JObj [(''updates'', JArr [update_d2])]) = Inr [(''d2'', [(''m'', JInt 5)])]"
    by (simp add: update_d2_def device_update_def dict_has_def dict_get_def flat_of_def
        unwrap_items_def)
qed (rule poll_update_spec)

theorem poll_all_flat_normalizes_witness:
  "dict_get [(''id'', JStr ''d1''), (''ts'', JInt 7),
             (''measurement'', JObj [(''m'', JObj [(''value'', JInt 3), (''unit'', JStr ''K'')])])]
     ''id'' = JStr ''d1''
   \<and> dict_get [(''id'', JStr ''d1''), (''ts'', JInt 7),
               (''measurement'', JObj [(''m'', JObj [(''value'', JInt 3), (''unit'', JStr ''K'')])])]
       ''measurement'' = JObj [(''m'', JObj [(''value'', JInt 3), (''unit'', JStr ''K'')])]
   \<and> poll_update []
        (JObj [(''id'', JStr ''d1''), (''ts'', JInt 7),
               (''measurement'', JObj [(''m'', JObj [(''value'', JInt 3), (''unit'', JStr ''K'')])])])
       = Inr [(''d1'', [(''m'', JInt 3)])]"
  using poll_all_flat_normalizes
    [of "[(''id'', JStr ''d1''), (''ts'', JInt 7),
          (''measurement'', JObj [(''m'', JObj [(''value'', JInt 3), (''unit'', JStr ''K'')])])]"
      "''d1''" "[(''m'', JObj [(''value'', JInt 3), (''unit'', JStr ''K'')])]" "[]" "[]"]
  by (simp add: dict_get_def spec_flat_def spec_unwrap_def)

lemma poll_update_no_measurement:
  "dict_get u ''id'' = JStr did \<Longrightarrow> \<forall>meas. dict_get u ''measurement'' \<noteq> JObj meas \<Longrightarrow>
     poll_update out (JObj u) = Inr (AList.update did [] out)"
  by (cases "dict_get u ''measurement''") (simp_all add: flat_of_def unwrap_items_def dict_has_def)

lemma poll_update_no_id:
  "\<forall>s. dict_get u ''id'' \<noteq> JStr s \<Longrightarrow> poll_update out (JObj u) = Inr out"
  by (cases "dict_get u ''id''") simp_all

lemma keys_update: "fst ` set (AList.update k v al) = insert k (fst ` set al)"
  using dom_update [of k v al] by (simp add: dom_map_of_conv_image_fst)

lemma poll_update_keys:
  "\<exists>snap. poll_update out (JObj d) = Inr snap \<and>
     fst ` set snap = fst ` set out \<union> {s. dict_get d ''id'' = JStr s}"
  by (cases "dict_get d ''id''") (simp_all add: keys_update)

lemma poll_loop_keys:
  "\<forall>x \<in> set us. \<exists>d. x = JObj d \<Longrightarrow>
   \<exists>snap. poll_loop out us = Inr snap \<and>
     fst ` set snap = fst ` set out \<union> {s. \<exists>d. JObj d \<in> set us \<and> dict_get d ''id'' = JStr s}"
proof (induction us arbitrary: out)
  case Nil
  show ?case by simp
next
  case (Cons x us)
  then obtain d where x: "x = JObj d" by auto
  obtain snap where s: "poll_update out (JObj d) = Inr snap"
    "fst ` set snap = fst ` set out \<union> {s. dict_get d ''id'' = JStr s}"
    using poll_update_keys by blast
  from Cons.prems have "\<forall>x \<in> set us. \<exists>d. x = JObj d" by simp
  from Cons.IH [OF this, of snap] obtain snap' where s': "poll_loop snap us = Inr snap'"
    "fst ` set snap' = fst ` set snap \<union> {s. \<exists>d. JObj d \<in> set us \<and> dict_get d ''id'' = JStr s}"
    by blast
  have "poll_loop out (x # us) = Inr snap'"
    using s(1) s'(1) by (simp add: x del: poll_update.simps)
  moreover have "fst ` set snap' =
      fst ` set out \<union> {s. \<exists>d. JObj d \<in> set (x # us) \<and> dict_get d ''id'' = JStr s}"
    unfolding s'(2) s(2) x by auto
  ultimately show ?case by blast
qed

text \<open>
  Claim C10. An update that is an object with a string id and whose \<^verbatim>\<open>measurement\<close> is
  missing, null or anything but an object stores the empty metric mapping under its id; an
  update whose \<^verbatim>\<open>id\<close> is not a string leaves the snapshot as it was; and a batch of updates
  that are all objects raises nothing and yields a snapshot whose devices are exactly the
  string ids of the updates.
\<close>

theorem poll_all_flat_degenerate_updates:
  "(dict_get u ''id'' = JStr did \<longrightarrow> (\<forall>meas. dict_get u ''measurement'' \<noteq> JObj meas) \<longrightarrow>
      poll_update out (JObj u) = Inr (AList.update did [] out))
   \<and> ((\<forall>s. dict_get u ''id'' \<noteq> JStr s) \<longrightarrow> poll_update out (JObj u) = Inr out)
   \<and> ((\<forall>x \<in> set us. \<exists>d. x = JObj d) \<longrightarrow>
        (\<exists>snap. poll_all_flat (JObj [(''updates'', JArr us)]) = Inr snap \<and>
           fst ` set snap = {s. \<exists>d. JObj d \<in> set us \<and> dict_get d ''id'' = JStr s}))"
proof (intro conjI impI)
  assume "\<forall>x \<in> set us. \<exists>d. x = JObj d"
  from poll_loop_keys [OF this, of "[]"]
  show "\<exists>snap. poll_all_flat (JObj [(''updates'', JArr us)]) = Inr snap \<and>
           fst ` set snap = {s. \<exists>d. JObj d \<in> set us \<and> dict_get d ''id'' = JStr s}"
    by (simp add: dict_has_def dict_get_def)
qed (simp_all add: poll_update_no_measurement poll_update_no_id del: poll_update.simps)

theorem poll_all_flat_degenerate_updates_witness:
  "dict_get [(''id'', JStr ''a''), (''measurement'', JStr ''offline'')] ''id'' = JStr ''a''
   \<and> dict_get [(''id'', JStr ''a''), (''measurement'', JStr ''offline'')] ''measurement''
       = JStr ''offline''
   \<and> poll_update [(''b'', [(''m'', JInt 1)])]
        (JObj [(''id'', JStr ''a''), (''measurement'', JStr ''offline'')])
       = Inr [(''b'', [(''m'', JInt 1)]), (''a'', [])]"
  using poll_all_flat_degenerate_updates
    [of "[(''id'', JStr ''a''), (''measurement'', JStr ''offline'')]" "''a''"
      "[(''b'', [(''m'', JInt 1)])]" "[]"]
  by (simp add: dict_get_def)

section \<open>Properties of \<^verbatim>\<open>load_recording_jsonl\<close>\<close>

text \<open>
  When every line that parses is an object, the file loads without an error and the result
  is the recording of the specification.
\<close>

lemma spec_recording_Nil: "spec_recording rec [] = rec"
  by (simp add: spec_recording_def)

lemma spec_recording_Cons:
  "spec_recording rec (obj # objs) =
     spec_recording
       (if of_type ''stonegate_recording'' obj \<and> header rec = JNull then rec\<lparr>header := JObj obj\<rparr>
        else if of_type ''sample'' obj then rec\<lparr>samples := samples rec @ [JObj obj]\<rparr>
        else if of_type ''stop'' obj then rec\<lparr>footer := JObj obj\<rparr>
        else rec) objs"
  by (auto simp: spec_recording_def of_type_def split: list.splits)

lemma load_lines_objects:
  "\<forall>v. Parsed v \<in> set ls \<longrightarrow> (\<exists>obj. v = JObj obj) \<Longrightarrow>
     load_lines rec ls = Inr (spec_recording rec (line_objects ls))"
proof (induction ls arbitrary: rec)
  case Nil
  show ?case by (simp add: line_objects_def spec_recording_Nil)
next
  case (Cons l ls)
  from Cons.prems have rest: "\<forall>v. Parsed v \<in> set ls \<longrightarrow> (\<exists>obj. v = JObj obj)" by auto
  note IH = Cons.IH [OF rest]
  show ?case
  proof (cases l)
    case Blank
    then show ?thesis using IH by (simp add: line_objects_def)
  next
    case Unparseable
    then show ?thesis using IH by (simp add: line_objects_def)
  next
    case (Parsed v)
    with Cons.prems obtain obj where v: "v = JObj obj" by auto
    have lo: "line_objects (l # ls) = obj # line_objects ls"
      by (simp add: line_objects_def Parsed v)
    show ?thesis
      unfolding lo spec_recording_Cons
      by (simp add: Parsed v IH Let_def of_type_def)
  qed
qed

lemma load_recording_jsonl_objects:
  "\<forall>v. Parsed v \<in> set ls \<longrightarrow> (\<exists>obj. v = JObj obj) \<Longrightarrow>
     load_recording_jsonl ls =
       Inr (spec_recording \<lparr>header = JNull, samples = [], footer = JNull\<rparr> (line_objects ls))"
  by (simp add: load_recording_jsonl_def load_lines_objects)

lemma load_recording_jsonl_example:
  "load_recording_jsonl
     [Parsed (JObj [(''type'', JStr ''stonegate_recording''), (''v'', JInt 1)]),
      Parsed (JObj [(''type'', JStr ''sample''), (''n'', JInt 1)]),
      Parsed (JObj [(''type'', JStr ''annotation'')]),
      Parsed (JObj [(''type'', JStr ''sample''), (''n'', JInt 2)]),
      Unparseable,
      Parsed (JObj [(''type'', JStr ''stop'')])] =
   Inr \<lparr>header = JObj [(''type'', JStr ''stonegate_recording''), (''v'', JInt 1)],
        samples = [JObj [(''type'', JStr ''sample''), (''n'', JInt 1)],
                   JObj [(''type'', JStr ''sample''), (''n'', JInt 2)]],
        footer = JObj [(''type'', JStr ''stop'')]\<rparr>"
  by (simp add: load_recording_jsonl_def dict_get_def Let_def)

text \<open>
  Claim C8. The claim has every line that is not a header, a sample or a stop record skipped
  without an error. A line that is valid JSON but not an object, such as \<^verbatim>\<open>42\<close>, is not
  skipped: \<^verbatim>\<open>obj.get\<close> raises \<^verbatim>\<open>AttributeError\<close>, outside the \<^verbatim>\<open>try\<close> that guards
  \<^verbatim>\<open>json.loads\<close>, and the load of the whole file fails.
\<close>

theorem load_recording_jsonl_non_object_line:
  "load_recording_jsonl
     [Parsed (JObj [(''type'', JStr ''stonegate_recording'')]),
      Parsed (JObj [(''type'', JStr ''sample''), (''n'', JInt 1)]),
      Parsed (JInt 42),
      Parsed (JObj [(''type'', JStr ''sample''), (''n'', JInt 2)]),
      Parsed (JObj [(''type'', JStr ''stop'')])] = Inl AttributeError"
  by (simp add: load_recording_jsonl_def dict_get_def Let_def)

section \<open>Properties of \<^verbatim>\<open>RpcError\<close> and of the command line\<close>

text \<open>
  Claim C9, as stated, fails: an \<^verbatim>\<open>RpcError\<close> whose \<^verbatim>\<open>details\<close> is \<^verbatim>\<open>None\<close>, such as the one
  the command line raises for an unknown command, renders without the parenthesised part.
\<close>

theorem RpcError_str_counterexample:
  "RpcError_str (\<lambda>v. []) ''bad_request'' ''Unknown command: x'' JNull
     = ''bad_request: Unknown command: x''
   \<and> run_cli (\<lambda>v. []) (\<lambda>v. []) ''x'' (Inr JNull)
     = Inr (''ERROR: bad_request: Unknown command: x'', 2)"
  by (simp add: RpcError_str_def run_cli_def cli_commands_def)

text \<open>
  Claim C9, amended. An \<^verbatim>\<open>RpcError\<close> renders as \<^verbatim>\<open><code>: <message> (<details>)\<close> when its
  details are not \<^verbatim>\<open>None\<close> and as \<^verbatim>\<open><code>: <message>\<close> when they are; for a command of the
  command line, an \<^verbatim>\<open>RpcError\<close> prints that rendering after \<^verbatim>\<open>ERROR: \<close> and returns status 2,
  and success prints the result and returns status 0.
\<close>

theorem RpcError_rendering:
  "RpcError_str repr code message details =
     (if details = JNull then code @ '': '' @ message
      else code @ '': '' @ message @ '' ('' @ py_str repr details @ '')'')
   \<and> (cmd \<in> set cli_commands \<longrightarrow>
        run_cli repr dumps cmd (Inl (RpcError code message details))
          = Inr (''ERROR: '' @ RpcError_str repr code message details, 2)
        \<and> run_cli repr dumps cmd (Inr out) = Inr (dumps out, 0))"
  by (simp add: RpcError_str_def run_cli_def)

theorem RpcError_rendering_witness:
  "''record.stop'' \<in> set cli_commands
   \<and> run_cli (\<lambda>v. []) (\<lambda>v. ''null'') ''record.stop''
        (Inl (RpcError ''not_found'' ''no such recording'' (JStr ''r1'')))
       = Inr (''ERROR: not_found: no such recording (r1)'', 2)
   \<and> run_cli (\<lambda>v. []) (\<lambda>v. ''null'') ''record.stop'' (Inr JNull) = Inr (''null'', 0)"
  using RpcError_rendering [of "\<lambda>v. []" "''not_found''" "''no such recording''" "JStr ''r1''"
      "''record.stop''" "\<lambda>v. ''null''" JNull]
  by (simp add: cli_commands_def py_str_def)

section \<open>Properties of \<^verbatim>\<open>apply_safe_state\<close>\<close>


lemma record_stop_empty: "fst (record_stop be [] lg) = Inr JNull"
  by (simp add: record_stop_def)











section \<open>Properties of the toolbox client\<close>

lemma run_append: "run repr (es @ es') s = run repr es' (run repr es s)"
  by (induction es arbitrary: s) simp_all

lemma client_inv_new: "client_inv repr [] new_client"
  by (simp add: client_inv_def new_client_def)

lemma client_inv_begin:
  assumes "client_inv repr evs s"
  shows "client_inv repr (evs @ [Begin rid method params]) (call_begin rid method params s)"
  using assms unfolding client_inv_def call_begin_def
  by (auto simp: nth_append less_Suc_eq)

lemma reader_body_cases:
  "reader_body raw s = Inr s' \<Longrightarrow>
     s' = s
     \<or> (\<exists>msg r h. raw = Some (JObj msg) \<and> dict_get msg ''type'' = JStr ''rpc_result'' \<and>
          dict_get msg ''id'' = JStr r \<and> pending s r = Some h \<and>
          (s' = s\<lparr>pending := (pending s)(r := None)\<rparr>
           \<or> \<not> fut_done (futures s h) \<and>
             s' = s\<lparr>pending := (pending s)(r := None),
                     futures := (futures s)(h := Resolved (JObj msg))\<rparr>))"
  by (auto simp: reader_body_def Let_def split: option.splits json.splits if_splits)

lemma client_inv_mono: "client_inv repr evs s \<Longrightarrow> client_inv repr (evs @ [e]) s"
  unfolding client_inv_def by auto

lemma client_inv_inbound:
  assumes "client_inv repr evs s"
  shows "client_inv repr (evs @ [Inbound raw]) (reader_step raw s)"
proof (cases "reader s")
  case (Some e)
  then show ?thesis using assms by (simp add: reader_step_def client_inv_mono)
next
  case None
  show ?thesis
  proof (cases "reader_body raw s")
    case (Inl e)
    have "client_inv repr (evs @ [Inbound raw]) (s\<lparr>reader := Some e\<rparr>)"
      using assms unfolding client_inv_def by auto
    then show ?thesis using None Inl by (simp add: reader_step_def)
  next
    case (Inr s')
    have fin: "fut_done (futures s h)" if "outcomes s h = Some (Inr v)" for h v
      using assms that unfolding client_inv_def by fastforce
    have "client_inv repr (evs @ [Inbound raw]) s'"
      using reader_body_cases [OF Inr] assms fin unfolding client_inv_def
      by (elim disjE exE conjE) (auto split: if_splits)
    then show ?thesis using None Inr by (simp add: reader_step_def)
  qed
qed

lemma client_inv_expire:
  assumes "client_inv repr evs s"
  shows "client_inv repr (evs @ [Expire h]) (call_expire h s)"
  using assms unfolding client_inv_def call_expire_def
  by (auto split: if_splits)

lemma client_inv_end:
  assumes "client_inv repr evs s"
  shows "client_inv repr (evs @ [End h]) (call_end repr h s)"
  using assms unfolding client_inv_def call_end_def
  by (auto split: if_splits fut.splits)

lemma client_inv_step:
  "client_inv repr evs s \<Longrightarrow> client_inv repr (evs @ [e]) (step repr e s)"
  by (cases e) (simp_all add: client_inv_begin client_inv_inbound client_inv_expire client_inv_end)

lemma client_inv_run: "client_inv repr evs (run repr evs new_client)"
proof (induction evs rule: rev_induct)
  case Nil
  show ?case by (simp add: client_inv_new)
next
  case (snoc e evs)
  then show ?case by (simp add: run_append client_inv_step)
qed


lemma call_result_Inr:
  "call_result repr m = Inr v \<Longrightarrow> \<exists>d. m = JObj d \<and> v = dict_get d ''result''"
  by (auto simp: call_result_def split: json.splits if_splits)

text \<open>
  Claim C1. After any sequence of events on a fresh client (calls of any methods and
  parameters beginning, frames of any content arriving in any order, timeouts, calls
  resuming): a future holds only a frame that did arrive, of type \<^verbatim>\<open>rpc_result\<close>, whose id is
  the id its own call generated; a call that returned a value returned the \<^verbatim>\<open>result\<close> field
  of such a frame; and when the generated ids are pairwise distinct, two different calls
  are never resolved by frames of the same id.
\<close>

theorem call_correlation:
  "(let s = run repr evs new_client in
     (futures s h = Resolved m \<longrightarrow>
        h < length (rids s) \<and> Inbound (Some m) \<in> set evs \<and>
        (\<exists>d. m = JObj d \<and> dict_get d ''type'' = JStr ''rpc_result'' \<and>
             dict_get d ''id'' = JStr (rids s ! h)))
     \<and> (outcomes s h = Some (Inr v) \<longrightarrow>
        (\<exists>d. futures s h = Resolved (JObj d) \<and> Inbound (Some (JObj d)) \<in> set evs \<and>
             dict_get d ''id'' = JStr (rids s ! h) \<and> v = dict_get d ''result''))
     \<and> (distinct (rids s) \<longrightarrow> h \<noteq> h' \<longrightarrow>
        futures s h = Resolved (JObj d) \<longrightarrow> futures s h' = Resolved (JObj d') \<longrightarrow>
        dict_get d ''id'' \<noteq> dict_get d' ''id''))"
proof -
  define s where "s = run repr evs new_client"
  have inv: "client_inv repr evs s" unfolding s_def by (rule client_inv_run)
  have res: "h < length (rids s) \<and> Inbound (Some m) \<in> set evs \<and>
        (\<exists>d. m = JObj d \<and> dict_get d ''type'' = JStr ''rpc_result'' \<and>
             dict_get d ''id'' = JStr (rids s ! h))" if "futures s h = Resolved m" for h m
    using inv that unfolding client_inv_def by blast
  have out: "\<exists>d. futures s h = Resolved (JObj d) \<and> Inbound (Some (JObj d)) \<in> set evs \<and>
             dict_get d ''id'' = JStr (rids s ! h) \<and> v = dict_get d ''result''"
    if o: "outcomes s h = Some (Inr v)"
  proof -
    from inv o obtain m where m: "futures s h = Resolved m" "call_result repr m = Inr v"
      unfolding client_inv_def by blast
    from call_result_Inr [OF m(2)] obtain d where d: "m = JObj d" "v = dict_get d ''result''"
      by blast
    from res [OF m(1)] d m(1) show ?thesis by auto
  qed
  have dis: "dict_get d ''id'' \<noteq> dict_get d' ''id''"
    if "distinct (rids s)" "h \<noteq> h'" "futures s h = Resolved (JObj d)"
      "futures s h' = Resolved (JObj d')"
  proof -
    from res [OF that(3)] have 1: "h < length (rids s)" "dict_get d ''id'' = JStr (rids s ! h)"
      by auto
    from res [OF that(4)] have 2: "h' < length (rids s)" "dict_get d' ''id'' = JStr (rids s ! h')"
      by auto
    from that(1,2) 1(1) 2(1) have "rids s ! h \<noteq> rids s ! h'"
      by (simp add: nth_eq_iff_index_eq)
    with 1(2) 2(2) show ?thesis by simp
  qed
  show ?thesis
    unfolding Let_def s_def [symmetric] using res out dis by blast
qed

lemma crossed_trace_run:
  "run (\<lambda>v. []) crossed_trace new_client =
     \<lparr>pending = Map.empty,
      futures = (\<lambda>h. Unresolved)(0 := Resolved (ok_frame ''a1'' (JInt 1)), 1 := Resolved (ok_frame ''b2'' (JInt 2))),
      rids = [''a1'', ''b2''],
      outcomes = [0 \<mapsto> Inr (JInt 1), 1 \<mapsto> Inr (JInt 2)],
      sent = [request ''a1'' ''devices.poll'' JNull, request ''b2'' ''devices.poll'' JNull],
      reader = None\<rparr>"
  apply (simp add: crossed_trace_def new_client_def call_begin_def reader_step_def reader_body_def
      call_end_def call_result_def ok_frame_def dict_get_def Let_def)
  apply (auto simp: fun_eq_iff)
  done


theorem call_correlation_witness:
  "(let s = run (\<lambda>v. []) crossed_trace new_client in
      futures s 0 = Resolved (ok_frame ''a1'' (JInt 1))
      \<and> outcomes s 0 = Some (Inr (JInt 1))
      \<and> outcomes s 1 = Some (Inr (JInt 2))
      \<and> distinct (rids s)
      \<and> (\<exists>d. futures s 0 = Resolved (JObj d) \<and> Inbound (Some (JObj d)) \<in> set crossed_trace \<and>
             dict_get d ''id'' = JStr (rids s ! 0) \<and> JInt 1 = dict_get d ''result''))"
  using call_correlation [of "\<lambda>v. []" crossed_trace 0 "ok_frame ''a1'' (JInt 1)" "JInt 1" 1
      "[(''type'', JStr ''rpc_result''), (''id'', JStr ''a1''), (''ok'', JBool True), (''result'', JInt 1)]"
      "[(''type'', JStr ''rpc_result''), (''id'', JStr ''b2''), (''ok'', JBool True), (''result'', JInt 2)]"]
  by (simp add: crossed_trace_run Let_def)



lemma pending_stays_None:
  "pending s r = None \<Longrightarrow> \<forall>method params. Begin r method params \<notin> set evs \<Longrightarrow>
     pending (run repr evs s) r = None"
proof (induction evs arbitrary: s)
  case Nil
  then show ?case by simp
next
  case (Cons e evs)
  have "pending (step repr e s) r = None"
  proof (cases e)
    case (Begin r' mth params)
    with Cons.prems show ?thesis by (auto simp: call_begin_def)
  next
    case (Inbound raw)
    show ?thesis
    proof (cases "reader_body raw s")
      case (Inl x)
      with Cons.prems(1) Inbound show ?thesis
        by (simp add: reader_step_def split: option.splits)
    next
      case (Inr s')
      from reader_body_cases [OF this] Cons.prems(1) have "pending s' r = None" by auto
      with Cons.prems(1) Inbound Inr show ?thesis
        by (simp add: reader_step_def split: option.splits)
    qed
  next
    case (Expire h)
    with Cons.prems(1) show ?thesis by (simp add: call_expire_def)
  next
    case (End h)
    with Cons.prems(1) show ?thesis by (simp add: call_end_def split: fut.splits)
  qed
  with Cons show ?case by simp
qed

lemma late_frame_noop:
  "pending s r = None \<Longrightarrow> dict_get d ''id'' = JStr r \<Longrightarrow> reader_step (Some (JObj d)) s = s"
  by (simp add: reader_step_def reader_body_def split: option.splits)

text \<open>
  Claim C2. Let a call be in flight after the events \<open>evs\<close>, none of which is a frame
  carrying its id. When its timeout elapses and the call resumes, it raises \<^verbatim>\<open>TimeoutError\<close>
  and its id is no longer in the pending table; and after any further events that do not
  begin a call with the same id, a frame carrying that id changes nothing at all: no
  future, no pending entry, and the reader goes on.
\<close>

theorem call_timeout:
  "(let s = run repr evs new_client;
        rid = rids s ! h;
        s' = run repr [Expire h, End h] s;
        s'' = run repr evs' s'
    in h < length (rids s) \<longrightarrow> outcomes s h = None \<longrightarrow>
       (\<forall>d. Inbound (Some (JObj d)) \<in> set evs \<longrightarrow> dict_get d ''id'' \<noteq> JStr rid) \<longrightarrow>
         outcomes s' h = Some (Inl TimeoutError) \<and> pending s' rid = None \<and>
         ((\<forall>method params. Begin rid method params \<notin> set evs') \<longrightarrow>
          dict_get d ''id'' = JStr rid \<longrightarrow>
          step repr (Inbound (Some (JObj d))) s'' = s''))"
proof -
  define s where "s = run repr evs new_client"
  define s' where "s' = run repr [Expire h, End h] s"
  have inv: "client_inv repr evs s" unfolding s_def by (rule client_inv_run)
  {
    assume h: "h < length (rids s)" and o: "outcomes s h = None"
      and nf: "\<forall>d. Inbound (Some (JObj d)) \<in> set evs \<longrightarrow> dict_get d ''id'' \<noteq> JStr (rids s ! h)"
    have "\<not> (\<exists>m. futures s h = Resolved m)"
      using inv nf unfolding client_inv_def by blast
    then have c: "futures (call_expire h s) h = Cancelled"
      using h o by (cases "futures s h") (simp_all add: call_expire_def)
    have u: "rids (call_expire h s) = rids s" "outcomes (call_expire h s) = outcomes s"
      by (simp_all add: call_expire_def)
    have 1: "outcomes s' h = Some (Inl TimeoutError)" "pending s' (rids s ! h) = None"
      unfolding s'_def using c u h o by (simp_all add: call_end_def)
    have 2: "step repr (Inbound (Some (JObj d))) (run repr evs' s') = run repr evs' s'"
      if "\<forall>method params. Begin (rids s ! h) method params \<notin> set evs'"
        "dict_get d ''id'' = JStr (rids s ! h)"
      using late_frame_noop [OF pending_stays_None [OF 1(2) that(1)] that(2)] by simp
    note 1 2
  }
  then show ?thesis
    unfolding Let_def s_def [symmetric] s'_def [symmetric] by blast
qed



text \<open>
  Claim C3, as stated, fails. When the timeout of a call has cancelled its future and the
  call has not yet resumed to remove its entry, a frame with the call's id finds a matching
  entry; the reader removes the entry and, the future being done, resolves nothing.
\<close>

theorem reader_body_done_future_counterexample:
  "(let s = run (\<lambda>v. []) [Begin ''a1'' ''devices.poll'' JNull, Expire 0] new_client;
        s' = reader_step (Some (ok_frame ''a1'' (JInt 1))) s
    in pending s ''a1'' = Some 0 \<and> reader s = None \<and> reader s' = None
       \<and> pending s' ''a1'' = None \<and> futures s' 0 = Cancelled)"
  by (simp add: new_client_def call_begin_def call_expire_def reader_step_def reader_body_def
      ok_frame_def dict_get_def Let_def)

text \<open>
  A frame that parses to something other than an object is not discarded either: the
  exception leaves the loop, and the reader takes no further frame.
\<close>

lemma reader_dies_on_non_object:
  "reader_body (Some (JArr xs)) s = Inl AttributeError"
  "reader s = None \<Longrightarrow> reader (reader_step (Some (JArr xs)) s) = Some AttributeError"
  "reader s = Some e \<Longrightarrow> reader_step raw s = s"
  by (simp_all add: reader_body_def reader_step_def)

text \<open>
  Claim C3, amended. For a frame that does not parse, or that parses to an object whose id
  is not a list or an object: if it does not parse, or its type is not \<^verbatim>\<open>rpc_result\<close>, or its
  id is empty or has no entry in the pending table, the iteration changes nothing and
  raises nothing; if its id has an entry, the entry is removed, and the future of that entry
  is resolved with the whole frame unless it is already done.
\<close>

theorem reader_frame_dispatch:
  "reader_body None s = Inr s
   \<and> (dict_get msg ''type'' \<noteq> JStr ''rpc_result'' \<longrightarrow> reader_body (Some (JObj msg)) s = Inr s)
   \<and> (\<not> truthy (dict_get msg ''id'') \<longrightarrow> reader_body (Some (JObj msg)) s = Inr s)
   \<and> ((\<forall>xs. dict_get msg ''id'' \<noteq> JArr xs) \<longrightarrow> (\<forall>d. dict_get msg ''id'' \<noteq> JObj d) \<longrightarrow>
       (\<forall>r. dict_get msg ''id'' = JStr r \<longrightarrow> pending s r = None) \<longrightarrow>
         reader_body (Some (JObj msg)) s = Inr s)
   \<and> (dict_get msg ''type'' = JStr ''rpc_result'' \<longrightarrow> dict_get msg ''id'' = JStr r \<longrightarrow>
       r \<noteq> [] \<longrightarrow> pending s r = Some h \<longrightarrow>
         reader_body (Some (JObj msg)) s =
           Inr (if fut_done (futures s h) then s\<lparr>pending := (pending s)(r := None)\<rparr>
                else s\<lparr>pending := (pending s)(r := None),
                       futures := (futures s)(h := Resolved (JObj msg))\<rparr>))"
  by (auto simp: reader_body_def Let_def split: json.splits option.splits)

theorem reader_frame_dispatch_witness:
  "(let s = call_begin ''a1'' ''devices.poll'' JNull new_client;
        msg = [(''type'', JStr ''rpc_result''), (''id'', JStr ''a1''), (''ok'', JBool True)]
    in dict_get msg ''type'' = JStr ''rpc_result'' \<and> dict_get msg ''id'' = JStr ''a1''
       \<and> pending s ''a1'' = Some 0 \<and> \<not> fut_done (futures s 0)
       \<and> reader_body (Some (JObj msg)) s =
           Inr (s\<lparr>pending := (pending s)(''a1'' := None),
                  futures := (futures s)(0 := Resolved (JObj msg))\<rparr>))"
  using reader_frame_dispatch
    [of "call_begin ''a1'' ''devices.poll'' JNull new_client"
      "[(''type'', JStr ''rpc_result''), (''id'', JStr ''a1''), (''ok'', JBool True)]" "''a1''" 0]
  by (simp add: call_begin_def new_client_def dict_get_def Let_def)

theorem call_timeout_witness:
  "(let s = run (\<lambda>v. []) [Begin ''a1'' ''devices.poll'' JNull,
                           Inbound (Some (ok_frame ''zz'' (JInt 9)))] new_client;
        s' = run (\<lambda>v. []) [Expire 0, End 0] s;
        s'' = run (\<lambda>v. []) [Begin ''b2'' ''devices.list'' JNull] s'
    in 0 < length (rids s) \<and> rids s ! 0 = ''a1'' \<and> outcomes s 0 = None
       \<and> outcomes s' 0 = Some (Inl TimeoutError) \<and> pending s' ''a1'' = None
       \<and> step (\<lambda>v. []) (Inbound (Some (ok_frame ''a1'' (JInt 1)))) s'' = s'')"
  using call_timeout
    [where repr = "\<lambda>v. []" and h = 0
      and evs = "[Begin ''a1'' ''devices.poll'' JNull, Inbound (Some (ok_frame ''zz'' (JInt 9)))]"
      and evs' = "[Begin ''b2'' ''devices.list'' JNull]"
      and d = "[(''type'', JStr ''rpc_result''), (''id'', JStr ''a1''), (''ok'', JBool True),
                (''result'', JInt 1)]"]
  by (simp add: new_client_def call_begin_def call_expire_def call_end_def reader_step_def
      reader_body_def ok_frame_def dict_get_def Let_def)

section \<open>Properties of \<^verbatim>\<open>wait_for_stable\<close>\<close>




















section \<open>Properties of \<^verbatim>\<open>estimate_leak_rate_per_s\<close>\<close>

lemma exact_ops_all:
  "f_sub exact_ops = lift2 (\<lambda>x y. x - y)"
  "f_mul exact_ops = lift2 (\<lambda>x y. x * y)"
  "f_div exact_ops = lift2 (\<lambda>x y. x / y)"
  "f_sq exact_ops = lift1 (\<lambda>x. x * x)"
  "f_sq_overflow exact_ops = test1 (\<lambda>x. 2 ^ 1024 \<le> x * x)"
  "f_neg exact_ops = lift1 (\<lambda>x. - x)"
  "f_abs exact_ops = lift1 (\<lambda>x. \<bar>x\<bar>)"
  "f_log exact_ops = lift1 ln"
  "f_sum exact_ops = foldl (lift2 (\<lambda>x y. x + y)) (Finite 0)"
  "f_len exact_ops = (\<lambda>n. Finite (real n))"
  "f_eq0 exact_ops = test1 (\<lambda>x. x = 0)"
  "f_gt0 exact_ops = test1 (\<lambda>x. x > 0)"
  "f_lt0 exact_ops = test1 (\<lambda>x. x < 0)"
  "f_isfinite exact_ops = test1 (\<lambda>x. True)"
  by (simp_all add: exact_ops_def)

lemma nan_code: "estimate_leak_rate_per_s exact_ops nan_samples (Finite 2) = Inr None"
  by (simp add: estimate_leak_rate_per_s_def nan_samples_def exact_ops_all py_pow2_def Let_def)

lemma nan_above_code:
  "estimate_leak_rate_per_s exact_ops nan_samples_above (Finite 2) = Inr (Some (Finite 0))"
  by (simp add: estimate_leak_rate_per_s_def nan_samples_above_def exact_ops_all py_pow2_def Let_def)

lemma overflow_code:
  "estimate_leak_rate_per_s exact_ops overflow_samples (Finite 2) = Inl OverflowError"
  by (simp add: estimate_leak_rate_per_s_def overflow_samples_def exact_ops_all py_pow2_def Let_def)

lemma nan_spec:
  "\<not> spec_no_estimate exact_ops nan_samples (Finite 2)"
  "spec_k exact_ops nan_samples (Finite 2) = Finite 0"
  by (simp_all add: spec_no_estimate_def spec_k_def spec_slope_def spec_den_def spec_mean_def
      spec_xs_def spec_ys_def spec_usable_def spec_dp0_def spec_sign_def nan_samples_def
      exact_ops_all)

text \<open>
  Where no pressure difference is a NaN and no square overflows, the code returns what the
  specification describes.
\<close>

lemma collect_points_eq:
  "collect_points F t0 dp0 p_atm acc raw =
     (fst acc @ map (\<lambda>s. f_sub F (fst s) t0)
                 (filter (\<lambda>s. \<not> (f_eq0 F (f_sub F (snd s) p_atm) \<or>
                                  f_gt0 F (f_sub F (snd s) p_atm) \<noteq> f_gt0 F dp0)) raw),
      snd acc @ map (\<lambda>s. f_log F (f_abs F (f_sub F (snd s) p_atm)))
                 (filter (\<lambda>s. \<not> (f_eq0 F (f_sub F (snd s) p_atm) \<or>
                                  f_gt0 F (f_sub F (snd s) p_atm) \<noteq> f_gt0 F dp0)) raw))"
proof (induction raw arbitrary: acc)
  case Nil
  show ?case by simp
next
  case (Cons s raw)
  obtain t p where s: "s = (t, p)" by (cases s)
  show ?case by (simp add: s Cons.IH Let_def)
qed

lemma sign_test:
  assumes "comparable F x" "comparable F y" "\<not> f_eq0 F x" "\<not> f_eq0 F y"
  shows "(f_gt0 F x \<noteq> f_gt0 F y) \<longleftrightarrow> spec_sign F x \<noteq> spec_sign F y"
  using assms by (auto simp: comparable_def spec_sign_def)

lemma usable_filter:
  assumes "\<forall>s \<in> set raw. comparable F (f_sub F (snd s) p_atm)"
    "comparable F dp0" "\<not> f_eq0 F dp0"
  shows "filter (\<lambda>s. \<not> (f_eq0 F (f_sub F (snd s) p_atm) \<or>
                        f_gt0 F (f_sub F (snd s) p_atm) \<noteq> f_gt0 F dp0)) raw =
         filter (\<lambda>s. \<not> (f_eq0 F (f_sub F (snd s) p_atm) \<or>
                        spec_sign F (f_sub F (snd s) p_atm) \<noteq> spec_sign F dp0)) raw"
proof (rule filter_cong [OF refl])
  fix s assume "s \<in> set raw"
  with assms(1) have c: "comparable F (f_sub F (snd s) p_atm)" by blast
  show "(\<not> (f_eq0 F (f_sub F (snd s) p_atm) \<or> f_gt0 F (f_sub F (snd s) p_atm) \<noteq> f_gt0 F dp0)) =
        (\<not> (f_eq0 F (f_sub F (snd s) p_atm) \<or>
            spec_sign F (f_sub F (snd s) p_atm) \<noteq> spec_sign F dp0))"
    using sign_test [OF c assms(2) _ assms(3)] by blast
qed

lemma squares_no_overflow:
  "\<forall>x \<in> set xs. \<not> f_sq_overflow F (f_sub F x xbar) \<Longrightarrow>
     squares F xbar xs = Inr (map (\<lambda>x. f_sq F (f_sub F x xbar)) xs)"
  by (induction xs) (simp_all add: py_pow2_def)

lemma squares_overflow:
  "\<exists>x \<in> set xs. f_sq_overflow F (f_sub F x xbar) \<Longrightarrow> squares F xbar xs = Inl OverflowError"
proof (induction xs)
  case Nil
  then show ?case by simp
next
  case (Cons x xs)
  show ?case
  proof (cases "f_sq_overflow F (f_sub F x xbar)")
    case True
    then show ?thesis by (simp add: py_pow2_def)
  next
    case False
    with Cons.prems have "\<exists>x \<in> set xs. f_sq_overflow F (f_sub F x xbar)" by simp
    from Cons.IH [OF this] False show ?thesis by (simp add: py_pow2_def)
  qed
qed

lemma estimate_eq:
  assumes c: "\<forall>s \<in> set raw_samples. comparable F (f_sub F (snd s) p_atm)"
    and no: "\<forall>x \<in> set (spec_xs F raw_samples p_atm).
               \<not> f_sq_overflow F (f_sub F x (spec_mean F (spec_xs F raw_samples p_atm)))"
  shows "estimate_leak_rate_per_s F raw_samples p_atm =
     Inr (if spec_no_estimate F raw_samples p_atm then None else Some (spec_k F raw_samples p_atm))"
proof (cases "length raw_samples < 3 \<or> f_eq0 F (spec_dp0 F raw_samples p_atm)")
  case True
  then show ?thesis
    by (auto simp: estimate_leak_rate_per_s_def spec_no_estimate_def spec_dp0_def Let_def)
next
  case False
  then have ne: "raw_samples \<noteq> []" by auto
  then have "hd raw_samples \<in> set raw_samples" by simp
  with c have c0: "comparable F (spec_dp0 F raw_samples p_atm)"
    unfolding spec_dp0_def by blast
  from False have nz: "\<not> f_eq0 F (spec_dp0 F raw_samples p_atm)" by simp
  have cp: "collect_points F (fst (hd raw_samples)) (spec_dp0 F raw_samples p_atm) p_atm ([], [])
              raw_samples = (spec_xs F raw_samples p_atm, spec_ys F raw_samples p_atm)"
    unfolding collect_points_eq usable_filter [OF c c0 nz]
    by (simp add: spec_xs_def spec_ys_def spec_usable_def)
  have len: "length (spec_ys F raw_samples p_atm) = length (spec_xs F raw_samples p_atm)"
    "length (spec_xs F raw_samples p_atm) = length (spec_usable F raw_samples p_atm)"
    by (simp_all add: spec_xs_def spec_ys_def)
  have sq: "squares F (spec_mean F (spec_xs F raw_samples p_atm)) (spec_xs F raw_samples p_atm) =
      Inr (map (\<lambda>x. f_sq F (f_sub F x (spec_mean F (spec_xs F raw_samples p_atm))))
             (spec_xs F raw_samples p_atm))"
    by (rule squares_no_overflow [OF no])
  show ?thesis
    using False cp len sq
    unfolding estimate_leak_rate_per_s_def spec_no_estimate_def spec_k_def spec_slope_def
      spec_den_def spec_mean_def spec_dp0_def [symmetric]
    by (simp add: Let_def spec_dp0_def [symmetric])
qed

text \<open>
  Claim C6. The code departs from the claim on two kinds of input. With the first pressure
  below the atmospheric one, a sample whose pressure is a NaN passes the test
  \<^verbatim>\<open>(dp > 0) != (dp0 > 0)\<close>, and the function returns \<^verbatim>\<open>None\<close> although three usable samples
  remain and their fit is 0, finite and not negative; with the first pressure above, the
  same test drops the NaN and the estimate 0 is returned. And where a squared deviation is
  out of range, \<^verbatim>\<open>** 2\<close> raises \<^verbatim>\<open>OverflowError\<close>, so that the function returns neither \<^verbatim>\<open>None\<close>
  nor an estimate.
\<close>

theorem estimate_leak_rate_per_s_failures:
  "estimate_leak_rate_per_s exact_ops nan_samples (Finite 2) = Inr None
   \<and> \<not> spec_no_estimate exact_ops nan_samples (Finite 2)
   \<and> spec_k exact_ops nan_samples (Finite 2) = Finite 0
   \<and> estimate_leak_rate_per_s exact_ops nan_samples_above (Finite 2) = Inr (Some (Finite 0))
   \<and> estimate_leak_rate_per_s exact_ops overflow_samples (Finite 2) = Inl OverflowError"
  by (simp add: nan_code nan_above_code overflow_code nan_spec)

theorem estimate_leak_rate_per_s_failures_witness:
  "estimate_leak_rate_per_s exact_ops nan_samples (Finite 2) = Inr None"
  using estimate_leak_rate_per_s_failures by simp

end
